theory Spec2Isabelle
  imports Complex_Main "HOL-Library.Multiset" "HOL-Library.Log_Nat"
begin

section \<open>JavaScript values used by the donation tracker\<close>

text \<open>
  The amounts of \<^verbatim>\<open>src/js/main.js\<close> are JavaScript numbers, that is IEEE 754 binary64
  values: a finite value \<open>Fin q\<close>, where \<open>q\<close> is the rational number that the double
  denotes (\<open>Fin 0\<close> is the positive zero), the negative zero, the two infinities and NaN.
\<close>

datatype jsnum = Fin rat | NegZero | PInf | NInf | NaN

text \<open>
  \<open>floor_log2 x\<close> is the binary exponent of a positive rational: the \<open>e\<close> with
  \<open>2 powi e \<le> x < 2 powi (e + 1)\<close>.
\<close>

definition floor_log2 :: "rat \<Rightarrow> int" where
  "floor_log2 x = (if 1 \<le> x then bitlen \<lfloor>x\<rfloor> - 1 else - bitlen (\<lceil>1 / x\<rceil> - 1))"

definition round_half_even :: "rat \<Rightarrow> int" where
  "round_half_even r =
     (let f = \<lfloor>r\<rfloor>; d = r - of_int f in
      if d < 1 / 2 then f
      else if 1 / 2 < d then f + 1
      else if even f then f else f + 1)"

text \<open>
  Rounding of an exact result to binary64, to the nearest value and to the even
  significand on a tie. A double is a multiple of its unit in the last place, two to the
  power of its exponent minus 52, by an integer below \<open>2 ^ 53\<close>; the exponent is at
  least -1022 (below that the values are subnormal and share one unit), and a result of
  \<open>2 powi 1024\<close> or more is an infinity. A result that rounds to zero keeps its sign.
\<close>

definition round64 :: "rat \<Rightarrow> jsnum" where
  "round64 x =
     (if x = 0 then Fin 0
      else
        (let e = max (floor_log2 \<bar>x\<bar>) (- 1022);
             ulp = 2 powi (e - 52);
             n = round_half_even (\<bar>x\<bar> / ulp);
             y = of_int n * ulp
         in if 2 powi 1024 \<le> y then (if 0 < x then PInf else NInf)
            else if n = 0 then (if 0 < x then Fin 0 else NegZero)
            else Fin (if 0 < x then y else - y)))"

text \<open>
  The operator \<^verbatim>\<open>+\<close> on numbers: NaN is absorbing, opposite infinities give NaN, an
  infinity absorbs every finite value, the sum of two negative zeros is the negative
  zero, and the exact sum of two finite values is rounded (an exact sum of zero is the
  positive zero).
\<close>

fun jsadd :: "jsnum \<Rightarrow> jsnum \<Rightarrow> jsnum" where
  "jsadd NaN _ = NaN"
| "jsadd _ NaN = NaN"
| "jsadd PInf NInf = NaN"
| "jsadd NInf PInf = NaN"
| "jsadd PInf _ = PInf"
| "jsadd _ PInf = PInf"
| "jsadd NInf _ = NInf"
| "jsadd _ NInf = NInf"
| "jsadd NegZero NegZero = NegZero"
| "jsadd NegZero (Fin b) = Fin b"
| "jsadd (Fin a) NegZero = Fin a"
| "jsadd (Fin a) (Fin b) = round64 (a + b)"

fun jsneg :: "jsnum \<Rightarrow> jsnum" where
  "jsneg (Fin a) = (if a = 0 then NegZero else Fin (- a))"
| "jsneg NegZero = Fin 0"
| "jsneg PInf = NInf"
| "jsneg NInf = PInf"
| "jsneg NaN = NaN"

text \<open>
  What a caller may pass as \<^verbatim>\<open>donation.amount\<close>: a number (a double, so the rational
  under \<open>Fin\<close> is one that \<open>round64\<close> leaves as it is), a string, or nothing.
\<close>

datatype jsval = JNum jsnum | JStr string | JUndefined

subsection \<open>parseFloat\<close>

text \<open>
  \<^verbatim>\<open>parseFloat(v)\<close> converts its argument to a string, skips leading white space and
  reads the longest prefix that is a decimal literal: an optional sign, then
  \<^verbatim>\<open>Infinity\<close>, or digits with an optional fraction and an optional exponent. Without
  such a prefix the result is NaN; otherwise it is the mathematical value of the literal
  rounded to binary64 (the standard lets an engine cut a literal of more than 20
  significant digits before it rounds; the model rounds the full value, as V8 does).
  Strings are sequences of 8-bit characters here, so the white space is the Latin-1 part
  of the JavaScript white space and line terminators.
\<close>

definition is_ws :: "char \<Rightarrow> bool" where
  "is_ws c = (of_char c \<in> {9, 10, 11, 12, 13, 32, 160 :: nat})"

definition is_digit :: "char \<Rightarrow> bool" where
  "is_digit c = (48 \<le> (of_char c :: nat) \<and> (of_char c :: nat) \<le> 57)"

definition digits_val :: "string \<Rightarrow> nat" where
  "digits_val ds = foldl (\<lambda>a c. 10 * a + (of_char c - 48)) 0 ds"

text \<open>The exponent part: \<^verbatim>\<open>e\<close> or \<^verbatim>\<open>E\<close>, an optional sign, at least one digit.\<close>

definition exponent_of :: "string \<Rightarrow> int" where
  "exponent_of r =
     (case r of
        [] \<Rightarrow> 0
      | c # r1 \<Rightarrow>
          if c = CHR ''e'' \<or> c = CHR ''E'' then
            (case r1 of
               [] \<Rightarrow> 0
             | s # r2 \<Rightarrow>
                 if s = CHR ''+'' then
                   (if takeWhile is_digit r2 = [] then 0
                    else int (digits_val (takeWhile is_digit r2)))
                 else if s = CHR ''-'' then
                   (if takeWhile is_digit r2 = [] then 0
                    else - int (digits_val (takeWhile is_digit r2)))
                 else
                   (if takeWhile is_digit r1 = [] then 0
                    else int (digits_val (takeWhile is_digit r1))))
          else 0)"

definition scale10 :: "rat \<Rightarrow> int \<Rightarrow> rat" where
  "scale10 x e = (if 0 \<le> e then x * 10 ^ nat e else x / 10 ^ nat (- e))"

definition unsigned_literal :: "string \<Rightarrow> jsnum" where
  "unsigned_literal r =
     (if take 8 r = ''Infinity'' then PInf
      else
        (let ip = takeWhile is_digit r; r1 = dropWhile is_digit r in
         case r1 of
           [] \<Rightarrow> if ip = [] then NaN else round64 (of_nat (digits_val ip))
         | c # r2 \<Rightarrow>
             if c = CHR ''.'' then
               (let fp = takeWhile is_digit r2; r3 = dropWhile is_digit r2 in
                if ip = [] \<and> fp = [] then NaN
                else round64 (scale10
                       (of_nat (digits_val ip) + of_nat (digits_val fp) / 10 ^ length fp)
                       (exponent_of r3)))
             else if ip = [] then NaN
             else round64 (scale10 (of_nat (digits_val ip)) (exponent_of r1))))"

definition parseFloat_string :: "string \<Rightarrow> jsnum" where
  "parseFloat_string s =
     (case dropWhile is_ws s of
        [] \<Rightarrow> NaN
      | c # r \<Rightarrow>
          if c = CHR ''+'' then unsigned_literal r
          else if c = CHR ''-'' then jsneg (unsigned_literal r)
          else unsigned_literal (c # r))"

text \<open>
  A number argument is first printed and then read back, which returns the number
  itself, except that the negative zero is printed as \<^verbatim>\<open>0\<close>; \<^verbatim>\<open>undefined\<close> is
  printed as the word \<^verbatim>\<open>undefined\<close>.
\<close>

definition parseFloat :: "jsval \<Rightarrow> jsnum" where
  "parseFloat v =
     (case v of
        JNum n \<Rightarrow> (if n = NegZero then Fin 0 else n)
      | JStr s \<Rightarrow> parseFloat_string s
      | JUndefined \<Rightarrow> parseFloat_string ''undefined'')"

text \<open>\<^verbatim>\<open>v || d\<close> on an optional string: \<^verbatim>\<open>undefined\<close> and the empty string are falsy.\<close>

definition or_default :: "string option \<Rightarrow> string \<Rightarrow> string" where
  "or_default v d = (case v of None \<Rightarrow> d | Some s \<Rightarrow> if s = [] then d else s)"

text \<open>\<^verbatim>\<open>Date.now().toString()\<close>: the decimal digits of an integer.\<close>

fun digits10 :: "nat \<Rightarrow> string" where
  "digits10 n =
     (if n < 10 then [char_of (48 + n)]
      else digits10 (n div 10) @ [char_of (48 + n mod 10)])"

declare digits10.simps [simp del]

definition number_toString :: "int \<Rightarrow> string" where
  "number_toString i = (if i < 0 then CHR ''-'' # digits10 (nat (- i)) else digits10 (nat i))"


section \<open>The data of the donation tracker\<close>

text \<open>
  A donation record as \<^verbatim>\<open>addDonation\<close> builds it. The field \<open>timestamp\<close> holds the
  time value in milliseconds that \<^verbatim>\<open>toISOString()\<close> writes and that
  \<^verbatim>\<open>new Date(d.timestamp)\<close> reads back.
\<close>

record donation =
  id' :: string
  amount :: jsnum
  tool :: string
  method' :: string
  contributor :: string
  timestamp :: int
  month :: int
  year :: int

record stats =
  totalRaised :: jsnum
  monthlyRaised :: jsnum
  toolsSupported :: nat
  contributors :: nat

text \<open>The part of \<^verbatim>\<open>AppState\<close> that the donation tracker reads and writes.\<close>

record AppState =
  donations :: "donation list"
  stats :: stats

text \<open>The argument of \<^verbatim>\<open>addDonation\<close>; a missing property is \<open>None\<close>.\<close>

record donation_input =
  in_amount :: jsval
  in_tool :: "string option"
  in_method :: "string option"
  in_contributor :: "string option"

text \<open>
  The clock is an input. \<^verbatim>\<open>addDonation\<close> reads it four times while it builds the
  record (\<^verbatim>\<open>Date.now()\<close> and three \<^verbatim>\<open>new Date()\<close>), and \<^verbatim>\<open>updateStats\<close> reads
  it twice, once for the month and once for the year.
\<close>

record add_clock =
  now_id :: int
  now_timestamp :: int
  now_month :: int
  now_year :: int
  cur_month :: int
  cur_year :: int

subsection \<open>localStorage and SafeStorage\<close>

text \<open>
  A stored value is the string that \<^verbatim>\<open>JSON.stringify\<close> produces. The program never
  parses the two documents back, so the model keeps the value that was serialised.
\<close>

datatype stored = JsonDonations "donation list" | JsonStats stats

datatype exn = StorageError

record localStorage =
  available :: bool
  items :: "string \<rightharpoonup> stored"

definition localStorage_getItem :: "string \<Rightarrow> localStorage \<Rightarrow> exn + stored option" where
  "localStorage_getItem key ls = (if available ls then Inr (items ls key) else Inl StorageError)"

definition localStorage_setItem :: "string \<Rightarrow> stored \<Rightarrow> localStorage \<Rightarrow> exn + localStorage" where
  "localStorage_setItem key v ls =
     (if available ls then Inr (ls\<lparr>items := (items ls)(key \<mapsto> v)\<rparr>) else Inl StorageError)"

text \<open>
  \<^verbatim>\<open>SafeStorage\<close> catches what \<^verbatim>\<open>localStorage\<close> throws. The warning goes to the
  console, which the program never reads.
\<close>

definition SafeStorage_getItem :: "string \<Rightarrow> localStorage \<Rightarrow> stored option" where
  "SafeStorage_getItem key ls =
     (case localStorage_getItem key ls of Inr v \<Rightarrow> v | Inl e \<Rightarrow> None)"

definition SafeStorage_setItem :: "string \<Rightarrow> stored \<Rightarrow> localStorage \<Rightarrow> localStorage" where
  "SafeStorage_setItem key v ls =
     (case localStorage_setItem key v ls of Inr ls' \<Rightarrow> ls' | Inl e \<Rightarrow> ls)"

text \<open>The state the tracker works on: \<^verbatim>\<open>AppState\<close> in memory and the browser's storage.\<close>

record world =
  app :: AppState
  ls :: localStorage

section \<open>DonationTracker\<close>

text \<open>
  \<^verbatim>\<open>displayStats\<close> and \<^verbatim>\<open>Utils.showNotification\<close> read \<^verbatim>\<open>AppState.stats\<close> or their
  arguments and write to the document only. They change neither \<^verbatim>\<open>AppState\<close> nor the
  storage, so they do not appear in the functions below.
\<close>

definition zero_stats :: stats where
  "zero_stats = \<lparr>totalRaised = Fin 0, monthlyRaised = Fin 0, toolsSupported = 0, contributors = 0\<rparr>"

definition loadDonations :: "world \<Rightarrow> world" where
  "loadDonations w =
     (let a = \<lparr>donations = [], stats = zero_stats\<rparr>;
          l1 = SafeStorage_setItem ''donations'' (JsonDonations []) (ls w);
          l2 = SafeStorage_setItem ''stats'' (JsonStats (stats a)) l1
      in \<lparr>app = a, ls = l2\<rparr>)"

definition saveDonations :: "world \<Rightarrow> world" where
  "saveDonations w =
     (let l1 = SafeStorage_setItem ''donations'' (JsonDonations (donations (app w))) (ls w);
          l2 = SafeStorage_setItem ''stats'' (JsonStats (stats (app w))) l1
      in w\<lparr>ls := l2\<rparr>)"

text \<open>
  The statistics \<^verbatim>\<open>updateStats\<close> computes from the array; \<^verbatim>\<open>reduce\<close> is a left fold
  and the size of a \<^verbatim>\<open>Set\<close> is the number of distinct elements.
\<close>

definition computeStats :: "donation list \<Rightarrow> int \<Rightarrow> int \<Rightarrow> stats" where
  "computeStats ds currentMonth currentYear =
     (let thisMonthDonations = filter (\<lambda>d. month d = currentMonth \<and> year d = currentYear) ds;
          monthlyTotal = foldl (\<lambda>sum d. jsadd sum (amount d)) (Fin 0) thisMonthDonations;
          total = foldl (\<lambda>sum d. jsadd sum (amount d)) (Fin 0) ds;
          uniqueContributors = card (set (map contributor ds));
          supportedTools = card (set (map tool (filter (\<lambda>d. tool d \<noteq> ''General'') ds)))
      in \<lparr>totalRaised = total, monthlyRaised = monthlyTotal,
          toolsSupported = supportedTools, contributors = uniqueContributors\<rparr>)"

definition updateStats :: "int \<Rightarrow> int \<Rightarrow> world \<Rightarrow> world" where
  "updateStats currentMonth currentYear w =
     saveDonations
       (w\<lparr>app := (app w)\<lparr>stats := computeStats (donations (app w)) currentMonth currentYear\<rparr>\<rparr>)"

definition init :: "int \<Rightarrow> int \<Rightarrow> world \<Rightarrow> world" where
  "init currentMonth currentYear w = updateStats currentMonth currentYear (loadDonations w)"

definition newDonation :: "donation_input \<Rightarrow> add_clock \<Rightarrow> donation" where
  "newDonation donation c =
     \<lparr>id' = number_toString (now_id c),
      amount = parseFloat (in_amount donation),
      tool = or_default (in_tool donation) ''General'',
      method' = or_default (in_method donation) ''Unknown'',
      contributor = or_default (in_contributor donation) ''Anonymous'',
      timestamp = now_timestamp c,
      month = now_month c,
      year = now_year c\<rparr>"

definition addDonation :: "donation_input \<Rightarrow> add_clock \<Rightarrow> world \<Rightarrow> world" where
  "addDonation donation c w =
     (let w1 = w\<lparr>app := (app w)\<lparr>donations := donations (app w) @ [newDonation donation c]\<rparr>\<rparr>;
          w2 = saveDonations w1
      in updateStats (cur_month c) (cur_year c) w2)"

definition manualAddDonation ::
  "jsval \<Rightarrow> string option \<Rightarrow> string option \<Rightarrow> string option \<Rightarrow> add_clock \<Rightarrow> world \<Rightarrow> world" where
  "manualAddDonation p_amount p_tool p_method p_contributor c w =
     addDonation \<lparr>in_amount = p_amount, in_tool = p_tool, in_method = p_method,
                  in_contributor = Some (or_default p_contributor ''Anonymous'')\<rparr> c w"

text \<open>
  \<^verbatim>\<open>Array.prototype.sort\<close> sorts the array it is called on, in place and stably, and
  returns that array. An element stays in front of a later one unless the comparison
  function returns a positive number for the pair.
\<close>

fun insert_by :: "('a \<Rightarrow> 'a \<Rightarrow> int) \<Rightarrow> 'a \<Rightarrow> 'a list \<Rightarrow> 'a list" where
  "insert_by cmp x [] = [x]"
| "insert_by cmp x (y # ys) = (if cmp x y \<le> 0 then x # y # ys else y # insert_by cmp x ys)"

definition array_sort :: "('a \<Rightarrow> 'a \<Rightarrow> int) \<Rightarrow> 'a list \<Rightarrow> 'a list" where
  "array_sort cmp xs = foldr (insert_by cmp) xs []"

definition getDonationHistory :: "world \<Rightarrow> donation list \<times> world" where
  "getDonationHistory w =
     (let sorted = array_sort (\<lambda>a b. timestamp b - timestamp a) (donations (app w))
      in (sorted, w\<lparr>app := (app w)\<lparr>donations := sorted\<rparr>\<rparr>))"

definition resetStats :: "world \<Rightarrow> world" where
  "resetStats w =
     saveDonations (w\<lparr>app := \<lparr>donations = [],
       stats = \<lparr>totalRaised = Fin 0, monthlyRaised = Fin 0, toolsSupported = 0, contributors = 0\<rparr>\<rparr>\<rparr>)"


section \<open>Sessions\<close>

text \<open>
  The page starts with the empty \<^verbatim>\<open>AppState\<close> of lines 38 to 44; \<open>world0\<close> pairs it with
  an empty, working storage. A session is a list of calls, run from left to right.
\<close>

definition world0 :: world where
  "world0 = \<lparr>app = \<lparr>donations = [], stats = zero_stats\<rparr>,
             ls = \<lparr>available = True, items = Map.empty\<rparr>\<rparr>"

datatype op = Init int int | Append donation_input add_clock | History | Reset

fun step :: "op \<Rightarrow> world \<Rightarrow> world" where
  "step (Init currentMonth currentYear) w = init currentMonth currentYear w"
| "step (Append donation c) w = addDonation donation c w"
| "step History w = snd (getDonationHistory w)"
| "step Reset w = resetStats w"

definition run :: "op list \<Rightarrow> world \<Rightarrow> world" where
  "run ops w = foldl (\<lambda>v p. step p v) w ops"

text \<open>
  The records of a session in the order of their insertion: what the calls of
  \<^verbatim>\<open>addDonation\<close> have created since the last \<^verbatim>\<open>init\<close> or \<^verbatim>\<open>resetStats\<close>, starting
  from the records \<open>ds\<close>.
\<close>

fun record_op :: "donation list \<Rightarrow> op \<Rightarrow> donation list" where
  "record_op ds (Init currentMonth currentYear) = []"
| "record_op ds (Append donation c) = ds @ [newDonation donation c]"
| "record_op ds History = ds"
| "record_op ds Reset = []"

definition ledger :: "donation list \<Rightarrow> op list \<Rightarrow> donation list" where
  "ledger ds ops = foldl record_op ds ops"

text \<open>A session without \<^verbatim>\<open>init\<close> and \<^verbatim>\<open>resetStats\<close>.\<close>

fun keeps_records :: "op \<Rightarrow> bool" where
  "keeps_records (Append donation c) = True"
| "keeps_records History = True"
| "keeps_records (Init currentMonth currentYear) = False"
| "keeps_records Reset = False"

text \<open>The sum of a list of numbers as \<^verbatim>\<open>reduce((sum, x) => sum + x, 0)\<close> computes it.\<close>

definition jssum :: "jsnum list \<Rightarrow> jsnum" where
  "jssum xs = foldl jsadd (Fin 0) xs"

text \<open>
  No rounding happens while the rationals \<open>qs\<close> are added one by one to \<open>a\<close>: every
  partial sum is a double.
\<close>

fun exact_sums :: "rat \<Rightarrow> rat list \<Rightarrow> bool" where
  "exact_sums a [] = True"
| "exact_sums a (q # qs) = (round64 (a + q) = Fin (a + q) \<and> exact_sums (a + q) qs)"


subsection \<open>Example data\<close>

text \<open>
  A clock on which all six readings of one call fall into the same millisecond, a caller's
  argument without a method, and a browser whose storage throws on every access.
\<close>

definition at_time :: "int \<Rightarrow> int \<Rightarrow> int \<Rightarrow> add_clock" where
  "at_time ms mo yr =
     \<lparr>now_id = ms, now_timestamp = ms, now_month = mo, now_year = yr,
      cur_month = mo, cur_year = yr\<rparr>"

definition donation_of :: "jsval \<Rightarrow> string option \<Rightarrow> string option \<Rightarrow> donation_input" where
  "donation_of a t c = \<lparr>in_amount = a, in_tool = t, in_method = None, in_contributor = c\<rparr>"

definition offline_world :: world where
  "offline_world = \<lparr>app = \<lparr>donations = [], stats = zero_stats\<rparr>,
                    ls = \<lparr>available = False, items = Map.empty\<rparr>\<rparr>"

section \<open>Rounding to binary64\<close>

lemma floor_log2_bounds:
  assumes "0 < x"
  shows "2 powi (floor_log2 x) \<le> x \<and> x < 2 powi (floor_log2 x + 1)"
proof (cases "1 \<le> x")
  case True
  define m where "m = \<lfloor>x\<rfloor>"
  have m: "0 < m" using True by (simp add: m_def)
  have b: "2 ^ nat (bitlen m - 1) \<le> m" "m < 2 ^ nat (bitlen m)"
    using bitlen_bounds [OF m] by auto
  have b1: "1 \<le> bitlen m"
    using m bitlen_eq_zero_iff [of m] bitlen_nonneg [of m] by linarith
  have "(2::rat) ^ nat (bitlen m - 1) \<le> of_int m"
    using b(1) by (metis of_int_le_iff of_int_numeral of_int_power)
  also have "of_int m \<le> x" by (simp add: m_def)
  finally have lo: "(2::rat) ^ nat (bitlen m - 1) \<le> x" .
  have "m + 1 \<le> 2 ^ nat (bitlen m)" using b(2) by simp
  then have "(of_int (m + 1) :: rat) \<le> 2 ^ nat (bitlen m)"
    by (metis of_int_le_iff of_int_numeral of_int_power)
  moreover have "x < of_int (m + 1)" by (simp add: m_def) linarith
  ultimately have hi: "x < (2::rat) ^ nat (bitlen m)" by linarith
  show ?thesis
    using lo hi b1 True by (simp add: floor_log2_def m_def [symmetric] power_int_def)
next
  case False
  define t where "t = 1 / x"
  have t: "1 < t" using False assms by (simp add: t_def)
  define k where "k = \<lceil>t\<rceil> - 1"
  have k: "0 < k" using t by (simp add: k_def)
  have b: "2 ^ nat (bitlen k - 1) \<le> k" "k < 2 ^ nat (bitlen k)"
    using bitlen_bounds [OF k] by auto
  have b1: "1 \<le> bitlen k"
    using k bitlen_eq_zero_iff [of k] bitlen_nonneg [of k] by linarith
  have "t \<le> of_int (k + 1)" by (simp add: k_def)
  also have "(of_int (k + 1) :: rat) \<le> 2 ^ nat (bitlen k)"
    using b(2) by (metis of_int_le_iff of_int_numeral of_int_power zless_imp_add1_zle)
  finally have thi: "t \<le> 2 ^ nat (bitlen k)" .
  have "(2::rat) ^ nat (bitlen k - 1) \<le> of_int k"
    using b(1) by (metis of_int_le_iff of_int_numeral of_int_power)
  also have "of_int k < t" by (simp add: k_def) linarith
  finally have tlo: "(2::rat) ^ nat (bitlen k - 1) < t" .
  have lo: "1 / 2 ^ nat (bitlen k) \<le> x"
    using thi assms by (simp add: t_def field_simps)
  have hi: "x < 1 / 2 ^ nat (bitlen k - 1)"
    using tlo assms by (simp add: t_def field_simps)
  have e: "floor_log2 x = - bitlen k"
    using False by (simp add: floor_log2_def k_def t_def)
  have p1: "(2::rat) powi (- bitlen k) = 1 / 2 ^ nat (bitlen k)"
    using b1 by (simp add: power_int_def power_inverse inverse_eq_divide power_one_over)
  have p2: "(2::rat) powi (- bitlen k + 1) = 1 / 2 ^ nat (bitlen k - 1)"
  proof (cases "bitlen k = 1")
    case True
    then show ?thesis by simp
  next
    case False
    then have "- bitlen k + 1 < 0" using b1 by simp
    moreover have "nat (bitlen k - 1) = nat (- (- bitlen k + 1))" by simp
    ultimately show ?thesis
      by (simp add: power_int_def power_inverse inverse_eq_divide power_one_over
          del: nat_diff_distrib)
  qed
  show ?thesis
    using lo hi by (simp only: e p1 p2 simp_thms)
qed

lemma floor_log2_unique:
  assumes "2 powi e \<le> x" and "x < 2 powi (e + 1)"
  shows "floor_log2 x = e"
proof -
  have "(0::rat) < 2 powi e" by simp
  then have pos: "0 < x"
    using assms(1) by linarith
  let ?f = "floor_log2 x"
  have f: "2 powi ?f \<le> x" "x < 2 powi (?f + 1)"
    using floor_log2_bounds [OF pos] by auto
  have "(2::rat) powi ?f < 2 powi (e + 1)" using f(1) assms(2) by linarith
  then have "?f < e + 1"
    using power_int_increasing [of "e + 1" ?f "2::rat"] by (cases "?f < e + 1") auto
  moreover have "(2::rat) powi e < 2 powi (?f + 1)" using f(2) assms(1) by linarith
  then have "e < ?f + 1"
    using power_int_increasing [of "?f + 1" e "2::rat"] by (cases "e < ?f + 1") auto
  ultimately show ?thesis by simp
qed

text \<open>Rounding a positive value whose binary exponent \<open>e\<close> is known.\<close>

lemma round64_normal:
  assumes "2 powi e \<le> x" and "x < 2 powi (e + 1)" and "- 1022 \<le> e"
  shows "round64 x =
     (if (2::rat) powi 1024 \<le> of_int (round_half_even (x / 2 powi (e - 52))) * 2 powi (e - 52)
      then PInf
      else if round_half_even (x / 2 powi (e - 52)) = 0 then Fin 0
      else Fin (of_int (round_half_even (x / 2 powi (e - 52))) * 2 powi (e - 52)))"
proof -
  have "(0::rat) < 2 powi e" by simp
  then have pos: "0 < x"
    using assms(1) by linarith
  have "floor_log2 \<bar>x\<bar> = e"
    using floor_log2_unique [OF assms(1,2)] pos by simp
  then show ?thesis
    using pos assms(3) by (simp add: round64_def Let_def max_def)
qed

lemma round64_uminus:
  assumes "0 < x"
  shows "round64 (- x) = jsneg (round64 x)"
  using assms by (simp add: round64_def Let_def)

lemma floor_rat_numeral [simp]:
  "\<lfloor>(numeral a :: rat) / numeral b\<rfloor> = numeral a div numeral b"
  using floor_divide_of_int_eq [of "numeral a" "numeral b", where ?'a = rat] by simp

lemma round_half_even_of_int [simp]: "round_half_even (of_int m) = m"
  by (simp add: round_half_even_def)

text \<open>A value with at most 53 significant bits and an exponent in range is a double.\<close>

lemma round64_exact:
  assumes "2 powi e \<le> x" and "x < 2 powi (e + 1)" and "- 1022 \<le> e" and "e \<le> 1023"
    and "x / 2 powi (e - 52) = of_int m"
  shows "round64 x = Fin x"
proof -
  have "(0::rat) < 2 powi e" by simp
  then have pos: "0 < x"
    using assms(1) by linarith
  have y: "of_int m * 2 powi (e - 52) = x"
    using assms(5) by (simp add: field_simps)
  have "(2::rat) powi (e + 1) \<le> 2 powi 1024"
    using assms(4) by (intro power_int_increasing) simp_all
  then have small: "\<not> (2::rat) powi 1024 \<le> x"
    using assms(2) by linarith
  have "m \<noteq> 0"
    using y pos by auto
  then show ?thesis
    using round64_normal [OF assms(1-3)] small
    by (simp only: assms(5) round_half_even_of_int y if_False)
qed

lemma round64_of_int:
  assumes "0 < n" and "n \<le> 2 ^ 53"
  shows "round64 (of_int n) = Fin (of_int n)"
proof -
  let ?x = "of_int n :: rat"
  let ?e = "floor_log2 ?x"
  have pos: "0 < ?x" using assms(1) by simp
  have b: "2 powi ?e \<le> ?x" "?x < 2 powi (?e + 1)"
    using floor_log2_bounds [OF pos] by auto
  have "1 \<le> n" using assms(1) by simp
  then have "(1::rat) \<le> ?x" by (metis of_int_le_iff of_int_1)
  then have "(2::rat) powi 0 < 2 powi (?e + 1)" using b(2) by simp
  then have e0: "0 \<le> ?e"
    using power_int_increasing [of "?e + 1" 0 "2::rat"] by (cases "0 \<le> ?e") auto
  have "?x \<le> 2 ^ 53"
    using assms(2) by (metis of_int_le_iff of_int_numeral of_int_power)
  then have "(2::rat) powi ?e \<le> 2 powi 53" using b(1) by simp
  then have e53: "?e \<le> 53"
    using power_int_strict_increasing [of 53 ?e "2::rat"] by (cases "?e \<le> 53") auto
  show ?thesis
  proof (cases "?e = 53")
    case True
    then have "?x = 2 ^ 53"
      using b(1) \<open>?x \<le> 2 ^ 53\<close> by simp
    then have "?x / 2 powi (?e - 52) = of_int (2 ^ 52)"
      using True by simp
    then show ?thesis
      using round64_exact [OF b, of "2 ^ 52"] True by simp
  next
    case False
    then have le: "?e \<le> 52" using e53 by simp
    have "(2::rat) powi (?e - 52) = 1 / 2 ^ nat (52 - ?e)"
    proof (cases "?e = 52")
      case True
      then show ?thesis by simp
    next
      case False
      then have "?e - 52 < 0" using le by simp
      moreover have "nat (- (?e - 52)) = nat (52 - ?e)" by simp
      ultimately show ?thesis
        by (simp add: power_int_def power_one_over inverse_eq_divide del: nat_diff_distrib)
    qed
    then have "?x / 2 powi (?e - 52) = of_int (n * 2 ^ nat (52 - ?e))"
      by simp
    then show ?thesis
      using round64_exact [OF b, of "n * 2 ^ nat (52 - ?e)"] e0 le by simp
  qed
qed

lemma round64_of_nat:
  assumes "n \<le> 2 ^ 53"
  shows "round64 (of_nat n) = Fin (of_nat n)"
proof (cases "n = 0")
  case True
  then show ?thesis by (simp add: round64_def)
next
  case False
  have "int n \<le> 2 ^ 53"
    using assms by (metis of_nat_le_iff of_nat_numeral of_nat_power)
  then show ?thesis
    using round64_of_int [of "int n"] False by simp
qed

lemma round_half_even_bounds: "\<lfloor>r\<rfloor> \<le> round_half_even r \<and> round_half_even r \<le> \<lfloor>r\<rfloor> + 1"
  by (simp add: round_half_even_def Let_def)

text \<open>Overflow and underflow.\<close>

lemma round64_overflow:
  assumes "2 powi 1024 \<le> x"
  shows "round64 x = PInf"
proof -
  have "(0::rat) < 2 powi 1024" by simp
  then have pos: "0 < x" using assms by linarith
  let ?e = "floor_log2 x"
  have b: "2 powi ?e \<le> x" "x < 2 powi (?e + 1)"
    using floor_log2_bounds [OF pos] by auto
  have "(2::rat) powi 1024 < 2 powi (?e + 1)" using b(2) assms by linarith
  then have e: "1024 \<le> ?e"
    using power_int_increasing [of "?e + 1" 1024 "2::rat"] by (cases "1024 \<le> ?e") auto
  let ?ulp = "(2::rat) powi (?e - 52)"
  have ulp: "0 < ?ulp" by simp
  have split: "(2::rat) powi ?e = 2 ^ 52 * ?ulp"
    using power_int_add [of "2::rat" 52 "?e - 52"] by simp
  then have "2 ^ 52 \<le> x / ?ulp"
    using b(1) ulp by (simp add: pos_le_divide_eq)
  then have "(2 ^ 52 :: int) \<le> \<lfloor>x / ?ulp\<rfloor>"
    by (simp add: le_floor_iff)
  then have "(2 ^ 52 :: int) \<le> round_half_even (x / ?ulp)"
    using round_half_even_bounds [of "x / ?ulp"] by linarith
  then have "(2 ^ 52 :: rat) \<le> of_int (round_half_even (x / ?ulp))"
    by (metis of_int_le_iff of_int_numeral of_int_power)
  then have "2 ^ 52 * ?ulp \<le> of_int (round_half_even (x / ?ulp)) * ?ulp"
    using ulp by (simp add: mult_right_mono)
  moreover have "(2::rat) powi 1024 \<le> 2 powi ?e"
    using e by (intro power_int_increasing) simp_all
  ultimately have "(2::rat) powi 1024 \<le> of_int (round_half_even (x / ?ulp)) * ?ulp"
    using split by linarith
  then show ?thesis
    using round64_normal [OF b] e by simp
qed

lemma round64_underflow:
  assumes "0 < x" and "x < 2 powi (- 1075)"
  shows "round64 x = Fin 0"
proof -
  have "2 powi (floor_log2 x) < (2::rat) powi (- 1075)"
    using floor_log2_bounds [OF assms(1)] assms(2) by linarith
  then have e: "floor_log2 x < - 1075"
    using power_int_increasing [of "- 1075" "floor_log2 x" "2::rat"]
    by (cases "floor_log2 x < - 1075") auto
  let ?r = "x / 2 powi (- 1074)"
  have "(2::rat) powi (- 1075) = 2 powi (- 1074) / 2"
    using power_int_add [of "2::rat" "- 1074" "- 1"] by simp
  then have half: "?r < 1 / 2"
    using assms(2) by (simp add: pos_divide_less_eq)
  have "0 < ?r" using assms(1) by simp
  then have "\<lfloor>?r\<rfloor> = 0" using half by (simp add: floor_eq_iff)
  then have "round_half_even ?r = 0"
    using half by (simp add: round_half_even_def Let_def)
  then show ?thesis
    using assms(1) e by (simp add: round64_def Let_def max_def)
qed

text \<open>Whole numbers up to \<open>2 ^ 53\<close> written as numerals.\<close>

lemma round64_numeral:
  "numeral k \<le> (2 ^ 53 :: nat) \<Longrightarrow> round64 (numeral k) = Fin (numeral k)"
  using round64_of_nat [of "numeral k"] by simp

lemma round64_zero: "round64 0 = Fin 0"
  by (simp add: round64_def)

lemma round64_one: "round64 1 = Fin 1"
  using round64_of_nat [of 1] by simp

text \<open>
  The doubles of the examples: \<^verbatim>\<open>1e16\<close> and its successor, which is halfway to the next
  double; \<^verbatim>\<open>0.1\<close>, \<^verbatim>\<open>0.2\<close> and \<^verbatim>\<open>0.3\<close> and their sums in both orders.
\<close>

lemma round64_1e16: "round64 10000000000000000 = Fin 10000000000000000"
  using round64_normal [of 53 10000000000000000] by (simp add: round_half_even_def Let_def)

lemma round64_1e16_plus_1: "round64 10000000000000001 = Fin 10000000000000000"
  using round64_normal [of 53 10000000000000001] by (simp add: round_half_even_def Let_def)

lemma round64_tenth: "round64 (1 / 10) = Fin (3602879701896397 / 36028797018963968)"
  using round64_normal [of "- 4" "1 / 10"] by (simp add: round_half_even_def Let_def)

lemma round64_fifth: "round64 (1 / 5) = Fin (3602879701896397 / 18014398509481984)"
  using round64_normal [of "- 3" "1 / 5"] by (simp add: round_half_even_def Let_def)

lemma round64_three_tenths: "round64 (3 / 10) = Fin (5404319552844595 / 18014398509481984)"
  using round64_normal [of "- 2" "3 / 10"] by (simp add: round_half_even_def Let_def)

lemma round64_double_tenth:
  "round64 (3602879701896397 / 36028797018963968) = Fin (3602879701896397 / 36028797018963968)"
  using round64_normal [of "- 4" "3602879701896397 / 36028797018963968"]
  by (simp add: round_half_even_def Let_def)

lemma round64_double_three_tenths:
  "round64 (5404319552844595 / 18014398509481984) = Fin (5404319552844595 / 18014398509481984)"
  using round64_normal [of "- 2" "5404319552844595 / 18014398509481984"]
  by (simp add: round_half_even_def Let_def)

lemma round64_tenth_plus_fifth:
  "round64 (10808639105689191 / 36028797018963968) = Fin (1351079888211149 / 4503599627370496)"
  using round64_normal [of "- 2" "10808639105689191 / 36028797018963968"]
  by (simp add: round_half_even_def Let_def)

lemma round64_tenth_fifth_plus_three_tenths:
  "round64 (10808639105689191 / 18014398509481984) = Fin (1351079888211149 / 2251799813685248)"
  using round64_normal [of "- 1" "10808639105689191 / 18014398509481984"]
  by (simp add: round_half_even_def Let_def)

lemma round64_half: "round64 (1 / 2) = Fin (1 / 2)"
  using round64_normal [of "- 1" "1 / 2"] by (simp add: round_half_even_def Let_def)

lemma round64_half_plus_tenth:
  "round64 (21617278211378381 / 36028797018963968) = Fin (5404319552844595 / 9007199254740992)"
  using round64_normal [of "- 1" "21617278211378381 / 36028797018963968"]
  by (simp add: round_half_even_def Let_def)

lemmas round64_examples = round64_zero round64_one round64_numeral round64_1e16 round64_1e16_plus_1 round64_tenth
  round64_fifth round64_three_tenths round64_double_tenth round64_double_three_tenths
  round64_tenth_plus_fifth round64_tenth_fifth_plus_three_tenths round64_half
  round64_half_plus_tenth

section \<open>Sums of amounts\<close>

lemma jsadd_NaN_right [simp]: "jsadd x NaN = NaN"
  by (cases x) simp_all

lemma foldl_amount: "foldl (\<lambda>sum d. jsadd sum (amount d)) a ds = foldl jsadd a (map amount ds)"
  by (induction ds arbitrary: a) simp_all

lemma foldl_jsadd_NaN: "foldl jsadd NaN xs = NaN"
  by (induction xs) simp_all

lemma foldl_jsadd_has_NaN: "NaN \<in> set xs \<Longrightarrow> foldl jsadd a xs = NaN"
  by (induction xs arbitrary: a) (auto simp: foldl_jsadd_NaN)

lemma jssum_snoc: "jssum (xs @ [x]) = jsadd (jssum xs) x"
  by (simp add: jssum_def)

lemma foldl_jsadd_exact:
  "exact_sums a qs \<Longrightarrow> foldl jsadd (Fin a) (map Fin qs) = Fin (a + sum_list qs)"
  by (induction qs arbitrary: a) (simp_all add: add.assoc)

lemma exact_sums_of_nat:
  "a + sum_list ns \<le> 2 ^ 53 \<Longrightarrow> exact_sums (of_nat a) (map of_nat ns)"
proof (induction ns arbitrary: a)
  case Nil
  show ?case by simp
next
  case (Cons n ns)
  have "a + n \<le> 2 ^ 53" using Cons.prems by simp
  then have "round64 (of_nat (a + n)) = Fin (of_nat (a + n))"
    by (rule round64_of_nat)
  moreover have "exact_sums (of_nat (a + n)) (map of_nat ns)"
    using Cons.prems by (intro Cons.IH) (simp add: add.assoc)
  ultimately show ?case by simp
qed

section \<open>The operations, one by one\<close>

subsection \<open>Storage\<close>

lemma setItem_unavailable:
  "\<not> available l \<Longrightarrow> localStorage_setItem k v l = Inl StorageError"
  by (simp add: localStorage_setItem_def)

lemma SafeStorage_setItem_unavailable [simp]:
  "\<not> available l \<Longrightarrow> SafeStorage_setItem k v l = l"
  by (simp add: SafeStorage_setItem_def localStorage_setItem_def)

lemma SafeStorage_setItem_available [simp]:
  "available l \<Longrightarrow> SafeStorage_setItem k v l = l\<lparr>items := (items l)(k \<mapsto> v)\<rparr>"
  by (simp add: SafeStorage_setItem_def localStorage_setItem_def)

lemma available_SafeStorage_setItem [simp]:
  "available (SafeStorage_setItem k v l) = available l"
  by (cases "available l") simp_all

subsection \<open>What each operation does to AppState\<close>

lemma computeStats_Nil [simp]: "computeStats [] m y = zero_stats"
  by (simp add: computeStats_def zero_stats_def)

lemma app_saveDonations [simp]: "app (saveDonations w) = app w"
  by (simp add: saveDonations_def Let_def)

lemma app_updateStats [simp]:
  "app (updateStats m y w) = (app w)\<lparr>stats := computeStats (donations (app w)) m y\<rparr>"
  by (simp add: updateStats_def)

lemma app_loadDonations [simp]:
  "app (loadDonations w) = \<lparr>donations = [], stats = zero_stats\<rparr>"
  by (simp add: loadDonations_def Let_def)

lemma app_init [simp]: "app (init m y w) = \<lparr>donations = [], stats = zero_stats\<rparr>"
  by (simp add: init_def)

lemma app_addDonation [simp]:
  "app (addDonation d c w) =
     \<lparr>donations = donations (app w) @ [newDonation d c],
      stats = computeStats (donations (app w) @ [newDonation d c]) (cur_month c) (cur_year c)\<rparr>"
  by (simp add: addDonation_def Let_def)

text \<open>
  \<^verbatim>\<open>window.addDonation\<close> goes through \<^verbatim>\<open>manualAddDonation\<close>, which substitutes the default
  contributor a first time; the record is the one \<^verbatim>\<open>addDonation\<close> builds from the same
  four values.
\<close>

lemma manualAddDonation_addDonation:
  "manualAddDonation a t me co c w =
     addDonation \<lparr>in_amount = a, in_tool = t, in_method = me, in_contributor = co\<rparr> c w"
  by (cases co)
    (simp_all add: manualAddDonation_def addDonation_def newDonation_def or_default_def)

lemma app_resetStats [simp]: "app (resetStats w) = \<lparr>donations = [], stats = zero_stats\<rparr>"
  by (simp add: resetStats_def zero_stats_def)

lemma fst_getDonationHistory:
  "fst (getDonationHistory w) = array_sort (\<lambda>a b. timestamp b - timestamp a) (donations (app w))"
  by (simp add: getDonationHistory_def Let_def)

lemma app_getDonationHistory [simp]:
  "app (snd (getDonationHistory w)) = (app w)\<lparr>donations := fst (getDonationHistory w)\<rparr>"
  by (simp add: getDonationHistory_def Let_def)

lemma ls_getDonationHistory [simp]: "ls (snd (getDonationHistory w)) = ls w"
  by (simp add: getDonationHistory_def Let_def)

subsection \<open>What each operation does to the storage\<close>

lemma ls_saveDonations:
  "ls (saveDonations w) =
     (if available (ls w)
      then (ls w)\<lparr>items := (items (ls w))(''donations'' \<mapsto> JsonDonations (donations (app w)),
                                            ''stats'' \<mapsto> JsonStats (stats (app w)))\<rparr>
      else ls w)"
  by (simp add: saveDonations_def Let_def)

lemma ls_resetStats:
  "ls (resetStats w) =
     (if available (ls w)
      then (ls w)\<lparr>items := (items (ls w))(''donations'' \<mapsto> JsonDonations [],
                                            ''stats'' \<mapsto> JsonStats zero_stats)\<rparr>
      else ls w)"
  by (simp add: resetStats_def ls_saveDonations zero_stats_def)

lemma ls_loadDonations:
  "ls (loadDonations w) =
     (if available (ls w)
      then (ls w)\<lparr>items := (items (ls w))(''donations'' \<mapsto> JsonDonations [],
                                            ''stats'' \<mapsto> JsonStats zero_stats)\<rparr>
      else ls w)"
  by (simp add: loadDonations_def Let_def)

lemma ls_updateStats:
  "ls (updateStats m y w) =
     (if available (ls w)
      then (ls w)\<lparr>items := (items (ls w))(''donations'' \<mapsto> JsonDonations (donations (app w)),
               ''stats'' \<mapsto> JsonStats (computeStats (donations (app w)) m y))\<rparr>
      else ls w)"
  by (simp add: updateStats_def ls_saveDonations)

lemma ls_init:
  "ls (init m y w) =
     (if available (ls w)
      then (ls w)\<lparr>items := (items (ls w))(''donations'' \<mapsto> JsonDonations [],
                                            ''stats'' \<mapsto> JsonStats zero_stats)\<rparr>
      else ls w)"
  by (simp add: init_def ls_updateStats ls_loadDonations)

lemma ls_addDonation:
  "ls (addDonation d c w) =
     (if available (ls w)
      then (ls w)\<lparr>items := (items (ls w))(''donations'' \<mapsto> JsonDonations (donations (app (addDonation d c w))),
               ''stats'' \<mapsto> JsonStats (stats (app (addDonation d c w))))\<rparr>
      else ls w)"
  by (simp add: addDonation_def Let_def ls_updateStats ls_saveDonations)

text \<open>With a working storage the persisted statistics are those in memory.\<close>

lemma persisted_stats_addDonation:
  "available (ls w) \<Longrightarrow>
     items (ls (addDonation d c w)) ''stats'' = Some (JsonStats (stats (app (addDonation d c w))))
     \<and> items (ls (addDonation d c w)) ''donations''
         = Some (JsonDonations (donations (app (addDonation d c w))))"
  by (simp add: ls_addDonation)

lemma init_eq_resetStats: "init m y w = resetStats w"
  by (rule world.equality) (simp_all add: ls_init ls_resetStats)

subsection \<open>The sort\<close>

lemma array_sort_Nil [simp]: "array_sort cmp [] = []"
  by (simp add: array_sort_def)

lemma insert_by_insort_key:
  "insert_by (\<lambda>a b. k b - k a) x xs = insort_key (\<lambda>d. - k d) x xs"
  for k :: "'a \<Rightarrow> int"
  by (induction xs) auto

lemma array_sort_sort_key:
  "array_sort (\<lambda>a b. k b - k a) xs = sort_key (\<lambda>d. - k d) xs"
  for k :: "'a \<Rightarrow> int"
  by (induction xs) (simp_all add: array_sort_def sort_key_def insert_by_insort_key)

lemma mset_array_sort [simp]: "mset (array_sort (\<lambda>a b. k b - k a) xs) = mset xs"
  for k :: "'a \<Rightarrow> int"
  by (simp add: array_sort_sort_key)

lemma set_array_sort [simp]: "set (array_sort (\<lambda>a b. k b - k a) xs) = set xs"
  for k :: "'a \<Rightarrow> int"
  by (simp add: array_sort_sort_key)

lemma array_sort_descending:
  "sorted_wrt (\<lambda>a b. k a \<ge> k b) (array_sort (\<lambda>a b. k b - k a) xs)"
  for k :: "'a \<Rightarrow> int"
proof -
  have "sorted (map (\<lambda>d. - k d) (sort_key (\<lambda>d. - k d) xs))"
    by (rule sorted_sort_key)
  then show ?thesis
    by (simp add: array_sort_sort_key sorted_map)
qed

lemma array_sort_stable:
  "filter (\<lambda>d. k d = t) (array_sort (\<lambda>a b. k b - k a) xs) = filter (\<lambda>d. k d = t) xs"
  for k :: "'a \<Rightarrow> int"
proof -
  have "filter (\<lambda>d. - k d = - t) (sort_key (\<lambda>d. - k d) xs) = filter (\<lambda>d. - k d = - t) xs"
    by (rule sort_key_stable)
  then show ?thesis
    by (simp add: array_sort_sort_key)
qed

lemma filter_distinct_key_rev:
  assumes "distinct (map k xs)"
  shows "filter (\<lambda>d. k d = t) (rev xs) = filter (\<lambda>d. k d = t) xs"
proof -
  have "length (filter (\<lambda>d. k d = t) xs) \<le> 1"
    using assms
  proof (induction xs)
    case Nil
    then show ?case by simp
  next
    case (Cons x xs)
    then show ?case
      by (auto simp: filter_empty_conv image_iff)
  qed
  then have "rev (filter (\<lambda>d. k d = t) xs) = filter (\<lambda>d. k d = t) xs"
    by (cases "filter (\<lambda>d. k d = t) xs" rule: rev_cases) auto
  then show ?thesis
    by (simp add: rev_filter)
qed

lemma array_sort_increasing:
  fixes k :: "'a \<Rightarrow> int"
  assumes perm: "mset xs = mset l"
    and stable: "\<And>t. filter (\<lambda>d. k d = t) xs = filter (\<lambda>d. k d = t) l"
    and incr: "sorted_wrt (<) (map k l)"
  shows "array_sort (\<lambda>a b. k b - k a) xs = rev l"
proof -
  have dist: "distinct (map k l)"
    using incr strict_sorted_iff by blast
  have "sort_key (\<lambda>d. - k d) xs = rev l"
  proof (rule properties_for_sort_key)
    show "mset (rev l) = mset xs"
      using perm by simp
  next
    fix r
    assume "r \<in> set (rev l)"
    have "filter (\<lambda>d. k d = k r) (rev l) = filter (\<lambda>d. k d = k r) xs"
      using filter_distinct_key_rev [OF dist] stable by simp
    moreover have "(\<lambda>x. - k r = - k x) = (\<lambda>d. k d = k r)"
      by auto
    ultimately show "filter (\<lambda>x. - k r = - k x) (rev l) = filter (\<lambda>x. - k r = - k x) xs"
      by simp
  next
    have "sorted (map k l)"
      using incr strict_sorted_iff by blast
    then have "sorted (rev (map (\<lambda>d. - k d) l))"
      by (simp add: sorted_wrt_rev sorted_map sorted_wrt_map)
    then show "sorted (map (\<lambda>d. - k d) (rev l))"
      by (simp add: rev_map)
  qed
  then show ?thesis
    by (simp add: array_sort_sort_key)
qed

subsection \<open>The statistics\<close>

lemma totalRaised_computeStats:
  "totalRaised (computeStats ds m y) = jssum (map amount ds)"
  by (simp add: computeStats_def Let_def jssum_def foldl_amount)

lemma monthlyRaised_computeStats:
  "monthlyRaised (computeStats ds m y)
     = jssum (map amount (filter (\<lambda>d. month d = m \<and> year d = y) ds))"
  by (simp add: computeStats_def Let_def jssum_def foldl_amount)

lemma toolsSupported_computeStats:
  "toolsSupported (computeStats ds m y) = card (tool ` set ds - {''General''})"
proof -
  have "tool ` {d \<in> set ds. tool d \<noteq> ''General''} = tool ` set ds - {''General''}"
    by auto
  then show ?thesis
    by (simp add: computeStats_def Let_def)
qed

lemma contributors_computeStats:
  "contributors (computeStats ds m y) = card (contributor ` set ds)"
  by (simp add: computeStats_def Let_def)

lemma totalRaised_NaN:
  assumes "r \<in> set ds" and "amount r = NaN"
  shows "totalRaised (computeStats ds m y) = NaN"
proof -
  have "NaN \<in> set (map amount ds)"
    using assms by force
  then show ?thesis
    by (simp only: totalRaised_computeStats jssum_def foldl_jsadd_has_NaN)
qed

lemma monthlyRaised_NaN:
  assumes "r \<in> set ds" and "amount r = NaN" and "month r = m" and "year r = y"
  shows "monthlyRaised (computeStats ds m y) = NaN"
proof -
  have "NaN \<in> set (map amount (filter (\<lambda>d. month d = m \<and> year d = y) ds))"
    using assms by force
  then show ?thesis
    by (simp only: monthlyRaised_computeStats jssum_def foldl_jsadd_has_NaN)
qed

section \<open>Sessions\<close>

lemma run_Nil [simp]: "run [] w = w"
  by (simp add: run_def)

lemma run_snoc [simp]: "run (ops @ [p]) w = step p (run ops w)"
  by (simp add: run_def)

lemma run_Cons: "run (p # ops) w = run ops (step p w)"
  by (simp add: run_def)

lemma ledger_Nil [simp]: "ledger ds [] = ds"
  by (simp add: ledger_def)

lemma ledger_snoc [simp]: "ledger ds (ops @ [p]) = record_op (ledger ds ops) p"
  by (simp add: ledger_def)

lemma donations_step_mset:
  "mset (donations (app w)) = mset l \<Longrightarrow> mset (donations (app (step p w))) = mset (record_op l p)"
  by (cases p) (simp_all add: fst_getDonationHistory)

lemma donations_run_mset:
  "mset (donations (app (run ops w))) = mset (ledger (donations (app w)) ops)"
  by (induction ops rule: rev_induct) (simp_all add: donations_step_mset)

lemma donations_step_stable:
  assumes "filter (\<lambda>d. timestamp d = t) (donations (app w)) = filter (\<lambda>d. timestamp d = t) l"
  shows "filter (\<lambda>d. timestamp d = t) (donations (app (step p w)))
           = filter (\<lambda>d. timestamp d = t) (record_op l p)"
  using assms by (cases p) (simp_all add: fst_getDonationHistory array_sort_stable)

lemma donations_run_stable:
  "filter (\<lambda>d. timestamp d = t) (donations (app (run ops w)))
     = filter (\<lambda>d. timestamp d = t) (ledger (donations (app w)) ops)"
  by (induction ops rule: rev_induct) (simp_all add: donations_step_stable)

lemma appends_donations:
  "donations (app (run (map (\<lambda>(d, c). Append d c) ins) w))
     = donations (app w) @ map (\<lambda>(d, c). newDonation d c) ins"
  by (induction ins rule: rev_induct) (simp_all add: split_def)

lemma stats_appends:
  "stats (app (run (map (\<lambda>(d, c). Append d c) ins) (init m y w)))
     = (if ins = [] then zero_stats
        else computeStats (map (\<lambda>(d, c). newDonation d c) ins)
               (cur_month (snd (last ins))) (cur_year (snd (last ins))))"
proof (cases ins rule: rev_cases)
  case Nil
  then show ?thesis by simp
next
  case (snoc ins' p)
  then show ?thesis
    using appends_donations [of ins' "init m y w"]
    by (simp add: split_def)
qed

lemma toolsSupported_step:
  assumes "toolsSupported (stats (app w))
             = card (tool ` set (donations (app w)) - {''General''})"
  shows "toolsSupported (stats (app (step p w)))
           = card (tool ` set (donations (app (step p w))) - {''General''})"
  using assms
  by (cases p) (simp_all add: toolsSupported_computeStats zero_stats_def fst_getDonationHistory)

lemma contributors_step:
  assumes "contributors (stats (app w)) = card (contributor ` set (donations (app w)))"
  shows "contributors (stats (app (step p w)))
           = card (contributor ` set (donations (app (step p w))))"
  using assms
  by (cases p) (simp_all add: contributors_computeStats zero_stats_def fst_getDonationHistory)

lemma app_step_cong: "app w' = app w \<Longrightarrow> app (step p w') = app (step p w)"
  by (cases p) (simp_all add: fst_getDonationHistory)

lemma app_run_cong: "app w' = app w \<Longrightarrow> app (run ops w') = app (run ops w)"
proof (induction ops rule: rev_induct)
  case Nil
  then show ?case by simp
next
  case (snoc p ops)
  then have "app (step p (run ops w')) = app (step p (run ops w))"
    by (intro app_step_cong) simp
  then show ?case by simp
qed

lemma ls_step_unavailable: "\<not> available (ls w) \<Longrightarrow> ls (step p w) = ls w"
  by (cases p) (simp_all add: ls_init ls_addDonation ls_resetStats)

lemma ls_run_unavailable: "\<not> available (ls w) \<Longrightarrow> ls (run ops w) = ls w"
  by (induction ops rule: rev_induct) (simp_all add: ls_step_unavailable)

lemma NaN_step:
  assumes "keeps_records p"
    and "r \<in> set (donations (app w))" and "amount r = NaN"
    and "totalRaised (stats (app w)) = NaN"
  shows "r \<in> set (donations (app (step p w))) \<and> totalRaised (stats (app (step p w))) = NaN"
  using assms
  by (cases p) (simp_all add: fst_getDonationHistory totalRaised_NaN [of r])

lemma NaN_run:
  assumes "list_all keeps_records ops"
    and "r \<in> set (donations (app w))" and "amount r = NaN"
    and "totalRaised (stats (app w)) = NaN"
  shows "r \<in> set (donations (app (run ops w))) \<and> totalRaised (stats (app (run ops w))) = NaN"
  using assms(1)
proof (induction ops rule: rev_induct)
  case Nil
  show ?case using assms by simp
next
  case (snoc p ops)
  then show ?case
    using NaN_step [of p r "run ops w"] assms(3) by simp
qed

text \<open>
  The three operations that write the statistics leave them equal to the recomputation
  over the stored array, at the month and year the operation has read.
\<close>

lemma stats_fresh_after_mutation:
  "stats (app (init m y w)) = computeStats (donations (app (init m y w))) m y
   \<and> stats (app (addDonation d c w))
       = computeStats (donations (app (addDonation d c w))) (cur_month c) (cur_year c)
   \<and> stats (app (resetStats w)) = computeStats (donations (app (resetStats w))) m' y'"
  by simp

text \<open>
  What \<^verbatim>\<open>getDonationHistory\<close> keeps: the statistics, the storage and the records as a
  multiset.
\<close>

lemma getDonationHistory_frame:
  "stats (app (snd (getDonationHistory w))) = stats (app w)
   \<and> ls (snd (getDonationHistory w)) = ls w
   \<and> mset (donations (app (snd (getDonationHistory w)))) = mset (donations (app w))"
  by (simp add: fst_getDonationHistory)

text \<open>The definitions that the examples below unfold.\<close>

lemmas parse_defs = parseFloat_def parseFloat_string_def unsigned_literal_def is_ws_def
  is_digit_def digits_val_def exponent_of_def scale10_def

lemmas example_defs = at_time_def donation_of_def newDonation_def or_default_def run_Cons

text \<open>
  The sum of two large doubles is an infinity, a literal beyond the range of the doubles
  is read as an infinity or as zero, and \<^verbatim>\<open>-0\<close> is read as the negative zero.
\<close>

lemma jsadd_overflow: "jsadd (Fin (2 ^ 1023)) (Fin (2 ^ 1023)) = PInf"
  using round64_overflow [of "2 ^ 1023 + 2 ^ 1023"] by simp

lemma parseFloat_1e400: "parseFloat (JStr ''1e400'') = PInf"
  using round64_overflow [of "10 ^ 400"] by (simp add: parse_defs)

lemma parseFloat_1e_minus_400: "parseFloat (JStr ''1e-400'') = Fin 0"
  using round64_underflow [of "1 / 10 ^ 400"] by (simp add: parse_defs)

lemma parseFloat_minus_0: "parseFloat (JStr ''-0'') = NegZero"
  by (simp add: parse_defs round64_zero)

section \<open>The claims\<close>

text \<open>
  Claim C1, as amended. Let a session start with \<^verbatim>\<open>init\<close> and continue with calls of
  \<^verbatim>\<open>addDonation\<close> only. After the last call the stored \<open>totalRaised\<close> is the binary64
  sum of the coerced amounts, accumulated from zero in the order of the calls, every
  partial sum rounded to the nearest double. It is the exact sum of the coerced amounts
  when no partial sum is rounded, in particular for whole amounts whose sum is at most
  \<open>2 ^ 53\<close>.
\<close>

theorem totalRaised_is_rounded_running_sum:
  "totalRaised (stats (app (run (map (\<lambda>(d, c). Append d c) ins) (init m y w))))
     = foldl jsadd (Fin 0) (map (\<lambda>(d, c). parseFloat (in_amount d)) ins)
   \<and> (map (\<lambda>(d, c). parseFloat (in_amount d)) ins = map Fin qs \<and> exact_sums 0 qs \<longrightarrow>
        totalRaised (stats (app (run (map (\<lambda>(d, c). Append d c) ins) (init m y w))))
          = Fin (sum_list qs))
   \<and> (map (\<lambda>(d, c). parseFloat (in_amount d)) ins = map (\<lambda>n. Fin (of_nat n)) ns
        \<and> sum_list ns \<le> 2 ^ 53 \<longrightarrow>
        totalRaised (stats (app (run (map (\<lambda>(d, c). Append d c) ins) (init m y w))))
          = Fin (of_nat (sum_list ns)))"
proof -
  let ?t = "totalRaised (stats (app (run (map (\<lambda>(d, c). Append d c) ins) (init m y w))))"
  let ?xs = "map (\<lambda>(d, c). parseFloat (in_amount d)) ins"
  have amounts: "map amount (map (\<lambda>(d, c). newDonation d c) ins) = ?xs"
    by (simp add: newDonation_def split_def comp_def)
  have fold: "?t = foldl jsadd (Fin 0) ?xs"
  proof (cases "ins = []")
    case True
    then show ?thesis by (simp add: zero_stats_def)
  next
    case False
    then show ?thesis
      by (simp only: stats_appends if_False totalRaised_computeStats amounts jssum_def)
  qed
  have exact: "?t = Fin (sum_list qs)" if "?xs = map Fin qs" and "exact_sums 0 qs"
    using foldl_jsadd_exact [OF that(2)] that(1) fold by simp
  have whole: "?t = Fin (of_nat (sum_list ns))"
    if "?xs = map (\<lambda>n. Fin (of_nat n)) ns" and "sum_list ns \<le> 2 ^ 53"
  proof -
    have "exact_sums (of_nat 0) (map of_nat ns)"
      using that(2) by (intro exact_sums_of_nat) simp
    then have "foldl jsadd (Fin 0) (map Fin (map of_nat ns)) = Fin (sum_list (map of_nat ns))"
      using foldl_jsadd_exact [of 0 "map of_nat ns"] by simp
    moreover have "sum_list (map of_nat ns) = (of_nat (sum_list ns) :: rat)"
      by (induction ns) simp_all
    ultimately show ?thesis
      using that(1) fold by (simp add: comp_def)
  qed
  show ?thesis
    using fold exact whole by blast
qed

text \<open>
  Claim C1 as it was stated fails where a partial sum is not a double: after donations of
  \<^verbatim>\<open>1e16\<close> and \<^verbatim>\<open>1\<close> the stored total is \<^verbatim>\<open>1e16\<close>, one less than the sum.
\<close>

theorem totalRaised_rounding_counterexample:
  "parseFloat (in_amount (donation_of (JStr ''1e16'') None None)) = Fin 10000000000000000
   \<and> parseFloat (in_amount (donation_of (JStr ''1'') None None)) = Fin 1
   \<and> totalRaised (stats (app (run
        [Append (donation_of (JStr ''1e16'') None None) (at_time 1000 10 2026),
         Append (donation_of (JStr ''1'') None None) (at_time 2000 10 2026)]
        (init 10 2026 world0)))) = Fin 10000000000000000
   \<and> totalRaised (stats (app (run
        [Append (donation_of (JStr ''1e16'') None None) (at_time 1000 10 2026),
         Append (donation_of (JStr ''1'') None None) (at_time 2000 10 2026)]
        (init 10 2026 world0)))) \<noteq> Fin (10000000000000000 + 1)"
  by (simp add: example_defs parse_defs totalRaised_computeStats jssum_def round64_examples)

text \<open>
  The scenario of the specification: 25 from Sam for Alpha, then the string \<^verbatim>\<open>10\<close> from Sam.
\<close>

theorem totalRaised_is_rounded_running_sum_witness:
  "exact_sums 0 [25, 10] \<and> sum_list [25, 10] \<le> (2 ^ 53 :: nat)
   \<and> totalRaised (stats (app (run
      [Append (donation_of (JNum (Fin 25)) (Some ''Alpha'') (Some ''Sam'')) (at_time 1000 10 2026),
       Append (donation_of (JStr ''10'') None (Some ''Sam'')) (at_time 2000 10 2026)]
      (init 10 2026 world0)))) = Fin 35"
proof -
  have a: "exact_sums 0 [25, 10]"
    by (simp add: round64_examples)
  have b: "sum_list [25, 10] \<le> (2 ^ 53 :: nat)"
    by simp
  have c: "map (\<lambda>(d, c). parseFloat (in_amount d))
             [(donation_of (JNum (Fin 25)) (Some ''Alpha'') (Some ''Sam''), at_time 1000 10 2026),
              (donation_of (JStr ''10'') None (Some ''Sam''), at_time 2000 10 2026)]
           = map Fin [25, 10]"
    by (simp add: donation_of_def parse_defs round64_examples)
  have d: "map Fin [25, 10] = map (\<lambda>n. Fin (of_nat n)) [25, 10]"
    by simp
  show ?thesis
    using a b c totalRaised_is_rounded_running_sum
      [of "[(donation_of (JNum (Fin 25)) (Some ''Alpha'') (Some ''Sam''), at_time 1000 10 2026),
            (donation_of (JStr ''10'') None (Some ''Sam''), at_time 2000 10 2026)]"
          10 2026 world0 "[25, 10]" "[25, 10]"]
    by (simp add: d)
qed

text \<open>
  Claim C2 says that no reachable state holds statistics that differ from the
  recomputation over the stored records. \<^verbatim>\<open>getDonationHistory\<close> reorders the stored array
  and does not recompute: after donations of \<^verbatim>\<open>0.1\<close>, \<^verbatim>\<open>0.2\<close> and \<^verbatim>\<open>0.3\<close> the stored
  total is 0.6000000000000001, summed in the order of insertion, and after the history
  call the recomputation over the stored array, now newest first, is 0.6.
\<close>

theorem getDonationHistory_leaves_stale_totalRaised:
  "totalRaised (stats (app (run
      [Append (donation_of (JStr ''0.1'') None None) (at_time 1000 10 2026),
       Append (donation_of (JStr ''0.2'') None None) (at_time 2000 10 2026),
       Append (donation_of (JStr ''0.3'') None None) (at_time 3000 10 2026),
       History]
      (init 10 2026 world0)))) = Fin (1351079888211149 / 2251799813685248)
   \<and> totalRaised (computeStats (donations (app (run
      [Append (donation_of (JStr ''0.1'') None None) (at_time 1000 10 2026),
       Append (donation_of (JStr ''0.2'') None None) (at_time 2000 10 2026),
       Append (donation_of (JStr ''0.3'') None None) (at_time 3000 10 2026),
       History]
      (init 10 2026 world0)))) 10 2026) = Fin (5404319552844595 / 9007199254740992)
   \<and> stats (app (run
      [Append (donation_of (JStr ''0.1'') None None) (at_time 1000 10 2026),
       Append (donation_of (JStr ''0.2'') None None) (at_time 2000 10 2026),
       Append (donation_of (JStr ''0.3'') None None) (at_time 3000 10 2026),
       History]
      (init 10 2026 world0)))
     \<noteq> computeStats (donations (app (run
      [Append (donation_of (JStr ''0.1'') None None) (at_time 1000 10 2026),
       Append (donation_of (JStr ''0.2'') None None) (at_time 2000 10 2026),
       Append (donation_of (JStr ''0.3'') None None) (at_time 3000 10 2026),
       History]
      (init 10 2026 world0)))) 10 2026"
proof -
  let ?w = "run
      [Append (donation_of (JStr ''0.1'') None None) (at_time 1000 10 2026),
       Append (donation_of (JStr ''0.2'') None None) (at_time 2000 10 2026),
       Append (donation_of (JStr ''0.3'') None None) (at_time 3000 10 2026),
       History]
      (init 10 2026 world0)"
  have stored: "totalRaised (stats (app ?w)) = Fin (1351079888211149 / 2251799813685248)"
    by (simp add: example_defs parse_defs totalRaised_computeStats jssum_def round64_examples)
  have fresh: "totalRaised (computeStats (donations (app ?w)) 10 2026)
                 = Fin (5404319552844595 / 9007199254740992)"
    by (simp add: example_defs parse_defs totalRaised_computeStats jssum_def round64_examples
        fst_getDonationHistory array_sort_def)
  have "totalRaised (stats (app ?w)) \<noteq> totalRaised (computeStats (donations (app ?w)) 10 2026)"
    by (simp only: stored fresh) simp
  then have "stats (app ?w) \<noteq> computeStats (donations (app ?w)) 10 2026"
    by auto
  then show ?thesis
    using stored fresh by blast
qed

text \<open>
  Claim C3, as amended. In every session that starts with \<^verbatim>\<open>init\<close>, also one with
  earlier calls of \<^verbatim>\<open>getDonationHistory\<close>, the history is a rearrangement of the records
  in the ledger, ordered from the newest to the oldest timestamp, and the records of one
  timestamp keep their order of insertion. If the timestamps grow strictly from each
  record to the next, the history is the ledger reversed: A, B, C gives C, B, A.
\<close>

theorem history_newest_first_stable:
  "mset (fst (getDonationHistory (run ops (init m y w)))) = mset (ledger [] ops)
   \<and> sorted_wrt (\<lambda>a b. timestamp b \<le> timestamp a) (fst (getDonationHistory (run ops (init m y w))))
   \<and> (\<forall>t. filter (\<lambda>d. timestamp d = t) (fst (getDonationHistory (run ops (init m y w))))
            = filter (\<lambda>d. timestamp d = t) (ledger [] ops))
   \<and> (sorted_wrt (<) (map timestamp (ledger [] ops)) \<longrightarrow>
        fst (getDonationHistory (run ops (init m y w))) = rev (ledger [] ops))"
proof -
  let ?xs = "donations (app (run ops (init m y w)))"
  have perm: "mset ?xs = mset (ledger [] ops)"
    using donations_run_mset [of ops "init m y w"] by simp
  have stable: "filter (\<lambda>d. timestamp d = t) ?xs = filter (\<lambda>d. timestamp d = t) (ledger [] ops)" for t
    using donations_run_stable [of t ops "init m y w"] by simp
  have "sorted_wrt (<) (map timestamp (ledger [] ops)) \<longrightarrow>
          array_sort (\<lambda>a b. timestamp b - timestamp a) ?xs = rev (ledger [] ops)"
    using array_sort_increasing [OF perm stable] by blast
  then show ?thesis
    using perm stable
    by (simp add: fst_getDonationHistory array_sort_descending array_sort_stable)
qed

text \<open>
  Claim C3 as it was stated fails when the clock does not advance: A, B and C appended
  within one millisecond come back as A, B, C.
\<close>

theorem history_same_millisecond_counterexample:
  "fst (getDonationHistory (run
      [Append (donation_of (JNum (Fin 1)) (Some ''A'') None) (at_time 1000 10 2026),
       Append (donation_of (JNum (Fin 2)) (Some ''B'') None) (at_time 1000 10 2026),
       Append (donation_of (JNum (Fin 3)) (Some ''C'') None) (at_time 1000 10 2026)]
      (init 10 2026 world0)))
     = [newDonation (donation_of (JNum (Fin 1)) (Some ''A'') None) (at_time 1000 10 2026),
        newDonation (donation_of (JNum (Fin 2)) (Some ''B'') None) (at_time 1000 10 2026),
        newDonation (donation_of (JNum (Fin 3)) (Some ''C'') None) (at_time 1000 10 2026)]
   \<and> fst (getDonationHistory (run
      [Append (donation_of (JNum (Fin 1)) (Some ''A'') None) (at_time 1000 10 2026),
       Append (donation_of (JNum (Fin 2)) (Some ''B'') None) (at_time 1000 10 2026),
       Append (donation_of (JNum (Fin 3)) (Some ''C'') None) (at_time 1000 10 2026)]
      (init 10 2026 world0)))
     \<noteq> [newDonation (donation_of (JNum (Fin 3)) (Some ''C'') None) (at_time 1000 10 2026),
        newDonation (donation_of (JNum (Fin 2)) (Some ''B'') None) (at_time 1000 10 2026),
        newDonation (donation_of (JNum (Fin 1)) (Some ''A'') None) (at_time 1000 10 2026)]"
  by (simp add: fst_getDonationHistory array_sort_def example_defs parseFloat_def)

text \<open>
  A, B and C appended one second apart, with a history call in between, come back as
  C, B, A.
\<close>

theorem history_newest_first_stable_witness:
  "sorted_wrt (<) (map timestamp (ledger []
      [Append (donation_of (JNum (Fin 1)) (Some ''A'') None) (at_time 1000 10 2026),
       Append (donation_of (JNum (Fin 2)) (Some ''B'') None) (at_time 2000 10 2026),
       History,
       Append (donation_of (JNum (Fin 3)) (Some ''C'') None) (at_time 3000 10 2026)]))
   \<and> fst (getDonationHistory (run
      [Append (donation_of (JNum (Fin 1)) (Some ''A'') None) (at_time 1000 10 2026),
       Append (donation_of (JNum (Fin 2)) (Some ''B'') None) (at_time 2000 10 2026),
       History,
       Append (donation_of (JNum (Fin 3)) (Some ''C'') None) (at_time 3000 10 2026)]
      (init 10 2026 world0)))
     = [newDonation (donation_of (JNum (Fin 3)) (Some ''C'') None) (at_time 3000 10 2026),
        newDonation (donation_of (JNum (Fin 2)) (Some ''B'') None) (at_time 2000 10 2026),
        newDonation (donation_of (JNum (Fin 1)) (Some ''A'') None) (at_time 1000 10 2026)]"
  using history_newest_first_stable
    [of "[Append (donation_of (JNum (Fin 1)) (Some ''A'') None) (at_time 1000 10 2026),
       Append (donation_of (JNum (Fin 2)) (Some ''B'') None) (at_time 2000 10 2026),
       History,
       Append (donation_of (JNum (Fin 3)) (Some ''C'') None) (at_time 3000 10 2026)]"
       10 2026 world0]
  by (simp add: ledger_def example_defs)

text \<open>
  Claim C4 says that \<^verbatim>\<open>getDonationHistory\<close> leaves the stored records and their order
  unchanged. The code sorts \<^verbatim>\<open>AppState.donations\<close> itself: after two donations A and B,
  B later than A, the stored array is A, B before the call and B, A after it.
\<close>

theorem getDonationHistory_reorders_the_stored_array:
  "donations (app (run
      [Append (donation_of (JNum (Fin 1)) (Some ''A'') None) (at_time 1000 10 2026),
       Append (donation_of (JNum (Fin 2)) (Some ''B'') None) (at_time 2000 10 2026)]
      (init 10 2026 world0)))
     = [newDonation (donation_of (JNum (Fin 1)) (Some ''A'') None) (at_time 1000 10 2026),
        newDonation (donation_of (JNum (Fin 2)) (Some ''B'') None) (at_time 2000 10 2026)]
   \<and> donations (app (snd (getDonationHistory (run
      [Append (donation_of (JNum (Fin 1)) (Some ''A'') None) (at_time 1000 10 2026),
       Append (donation_of (JNum (Fin 2)) (Some ''B'') None) (at_time 2000 10 2026)]
      (init 10 2026 world0)))))
     = [newDonation (donation_of (JNum (Fin 2)) (Some ''B'') None) (at_time 2000 10 2026),
        newDonation (donation_of (JNum (Fin 1)) (Some ''A'') None) (at_time 1000 10 2026)]"
  by (simp add: fst_getDonationHistory array_sort_def example_defs)

text \<open>
  Claim C5. In every session that starts with \<^verbatim>\<open>init\<close>, the stored \<open>toolsSupported\<close>
  is the number of distinct \<open>tool\<close> values of the stored records, the value
  \<^verbatim>\<open>General\<close> left out.
\<close>

theorem toolsSupported_counts_distinct_tools:
  "toolsSupported (stats (app (run ops (init m y w))))
     = card (tool ` set (donations (app (run ops (init m y w)))) - {''General''})"
proof (induction ops rule: rev_induct)
  case Nil
  show ?case by (simp add: zero_stats_def)
next
  case (snoc p ops)
  then show ?case
    by (simp only: run_snoc toolsSupported_step)
qed

text \<open>
  Two donations for Alpha and one for General support one tool.
\<close>

theorem toolsSupported_counts_distinct_tools_witness:
  "toolsSupported (stats (app (run
      [Append (donation_of (JNum (Fin 5)) (Some ''Alpha'') None) (at_time 1000 10 2026),
       Append (donation_of (JNum (Fin 5)) (Some ''Alpha'') None) (at_time 2000 10 2026),
       Append (donation_of (JNum (Fin 5)) (Some ''General'') None) (at_time 3000 10 2026)]
      (init 10 2026 world0)))) = 1"
  using toolsSupported_counts_distinct_tools
    [of "[Append (donation_of (JNum (Fin 5)) (Some ''Alpha'') None) (at_time 1000 10 2026),
       Append (donation_of (JNum (Fin 5)) (Some ''Alpha'') None) (at_time 2000 10 2026),
       Append (donation_of (JNum (Fin 5)) (Some ''General'') None) (at_time 3000 10 2026)]"
       10 2026 world0]
  by (simp add: example_defs)

text \<open>
  Claim C6. In every session that starts with \<^verbatim>\<open>init\<close>, the stored \<open>contributors\<close> is
  the number of distinct \<open>contributor\<close> strings of the stored records; the default
  \<^verbatim>\<open>Anonymous\<close> counts like any other string.
\<close>

theorem contributors_counts_distinct_names:
  "contributors (stats (app (run ops (init m y w))))
     = card (contributor ` set (donations (app (run ops (init m y w)))))"
proof (induction ops rule: rev_induct)
  case Nil
  show ?case by (simp add: zero_stats_def)
next
  case (snoc p ops)
  then show ?case
    by (simp only: run_snoc contributors_step)
qed

text \<open>
  Three donations without a contributor count as one contributor.
\<close>

theorem contributors_counts_distinct_names_witness:
  "contributors (stats (app (run
      [Append (donation_of (JNum (Fin 5)) (Some ''Alpha'') None) (at_time 1000 10 2026),
       Append (donation_of (JNum (Fin 7)) (Some ''Beta'') None) (at_time 2000 10 2026),
       Append (donation_of (JNum (Fin 9)) None None) (at_time 3000 10 2026)]
      (init 10 2026 world0)))) = 1"
  using contributors_counts_distinct_names
    [of "[Append (donation_of (JNum (Fin 5)) (Some ''Alpha'') None) (at_time 1000 10 2026),
       Append (donation_of (JNum (Fin 7)) (Some ''Beta'') None) (at_time 2000 10 2026),
       Append (donation_of (JNum (Fin 9)) None None) (at_time 3000 10 2026)]"
       10 2026 world0]
  by (simp add: example_defs)



text \<open>
  Claim C8. From any state \<^verbatim>\<open>init\<close> and \<^verbatim>\<open>resetStats\<close> lead to the same state: no
  records, all statistics zero and, where the storage works, the empty array and the zero
  statistics under the two keys. Each of them is idempotent, and the history read after
  either is empty.
\<close>

theorem resetStats_equivalent_to_init:
  "init m y w = resetStats w
   \<and> app (init m y w) = \<lparr>donations = [], stats = zero_stats\<rparr>
   \<and> app (resetStats w) = \<lparr>donations = [], stats = zero_stats\<rparr>
   \<and> init m' y' (init m y w) = init m y w
   \<and> resetStats (resetStats w) = resetStats w
   \<and> fst (getDonationHistory (init m y w)) = []
   \<and> fst (getDonationHistory (resetStats w)) = []
   \<and> (available (ls w) \<longrightarrow>
        items (ls (init m y w)) ''donations'' = Some (JsonDonations [])
        \<and> items (ls (init m y w)) ''stats'' = Some (JsonStats zero_stats))"
proof -
  have idem: "resetStats (resetStats w) = resetStats w"
    by (rule world.equality) (simp_all add: ls_resetStats)
  have "init m' y' (init m y w) = init m y w"
    using idem by (simp add: init_eq_resetStats)
  moreover have "available (ls w) \<longrightarrow>
        items (ls (init m y w)) ''donations'' = Some (JsonDonations [])
        \<and> items (ls (init m y w)) ''stats'' = Some (JsonStats zero_stats)"
    by (simp add: ls_init)
  ultimately show ?thesis
    using idem by (simp add: init_eq_resetStats fst_getDonationHistory)
qed

text \<open>
  A ledger with one record and a working storage.
\<close>

theorem resetStats_equivalent_to_init_witness:
  "available (ls (run [Append (donation_of (JNum (Fin 25)) (Some ''Alpha'') None) (at_time 1000 10 2026)] world0))
   \<and> items (ls (init 10 2026
        (run [Append (donation_of (JNum (Fin 25)) (Some ''Alpha'') None) (at_time 1000 10 2026)] world0)))
        ''donations'' = Some (JsonDonations [])
   \<and> items (ls (init 10 2026
        (run [Append (donation_of (JNum (Fin 25)) (Some ''Alpha'') None) (at_time 1000 10 2026)] world0)))
        ''stats'' = Some (JsonStats zero_stats)
   \<and> init 10 2026
        (run [Append (donation_of (JNum (Fin 25)) (Some ''Alpha'') None) (at_time 1000 10 2026)] world0)
      = resetStats
        (run [Append (donation_of (JNum (Fin 25)) (Some ''Alpha'') None) (at_time 1000 10 2026)] world0)"
proof -
  have a: "available (ls (run [Append (donation_of (JNum (Fin 25)) (Some ''Alpha'') None) (at_time 1000 10 2026)] world0))"
    by (simp add: run_Cons ls_addDonation world0_def)
  show ?thesis
    using a resetStats_equivalent_to_init
      [of 10 2026
        "run [Append (donation_of (JNum (Fin 25)) (Some ''Alpha'') None) (at_time 1000 10 2026)] world0"
        10 2026]
    by blast
qed

text \<open>
  Claim C9. Let the storage of \<open>w\<close> throw on every access and let \<open>w'\<close> have the same
  \<^verbatim>\<open>AppState\<close> and a working storage. Every session leaves the same \<^verbatim>\<open>AppState\<close> in both,
  the history read after it is the same, and the failing storage is unchanged.
  \<^verbatim>\<open>localStorage\<close> throws there; \<^verbatim>\<open>SafeStorage\<close> returns, with nothing written and
  \<^verbatim>\<open>null\<close> read. The operations reach the storage through \<^verbatim>\<open>SafeStorage\<close> only, so none
  of them has an error result.
\<close>

theorem unavailable_storage_changes_nothing_in_memory:
  assumes "\<not> available (ls w)" and "available (ls w')" and "app w' = app w"
  shows "app (run ops w) = app (run ops w')
   \<and> fst (getDonationHistory (run ops w)) = fst (getDonationHistory (run ops w'))
   \<and> ls (run ops w) = ls w
   \<and> localStorage_setItem key v (ls w) = Inl StorageError
   \<and> SafeStorage_setItem key v (ls w) = ls w
   \<and> localStorage_getItem key (ls w) = Inl StorageError
   \<and> SafeStorage_getItem key (ls w) = None"
proof -
  have "app (run ops w') = app (run ops w)"
    using assms(3) by (rule app_run_cong)
  then show ?thesis
    using assms(1)
    by (simp add: fst_getDonationHistory ls_run_unavailable setItem_unavailable
        localStorage_getItem_def SafeStorage_getItem_def)
qed

text \<open>
  A session with every kind of call, once without and once with a working storage.
\<close>

theorem unavailable_storage_changes_nothing_in_memory_witness:
  "\<not> available (ls offline_world) \<and> available (ls world0) \<and> app world0 = app offline_world
   \<and> app (run [Append (donation_of (JNum (Fin 25)) (Some ''Alpha'') None) (at_time 1000 10 2026),
                History, Reset,
                Append (donation_of (JStr ''10'') None None) (at_time 2000 10 2026)] offline_world)
      = app (run [Append (donation_of (JNum (Fin 25)) (Some ''Alpha'') None) (at_time 1000 10 2026),
                History, Reset,
                Append (donation_of (JStr ''10'') None None) (at_time 2000 10 2026)] world0)
   \<and> SafeStorage_setItem ''donations'' (JsonDonations []) (ls offline_world) = ls offline_world"
proof -
  have a: "\<not> available (ls offline_world)"
    by (simp add: offline_world_def)
  have b: "available (ls world0)"
    by (simp add: world0_def)
  have c: "app world0 = app offline_world"
    by (simp add: world0_def offline_world_def)
  show ?thesis
    using a b c unavailable_storage_changes_nothing_in_memory [OF a b c] by blast
qed

text \<open>
  Claim C10. Let \<^verbatim>\<open>parseFloat\<close> turn the amount of a donation into NaN. Then the amount
  of the created record is NaN. The stored \<open>totalRaised\<close> is NaN after this call and after
  every later call of \<^verbatim>\<open>addDonation\<close> or \<^verbatim>\<open>getDonationHistory\<close>, as long as neither
  \<^verbatim>\<open>init\<close> nor \<^verbatim>\<open>resetStats\<close> is called. \<open>monthlyRaised\<close> is NaN after each
  recomputation that reads the month and year of the record. Every call of
  \<^verbatim>\<open>addDonation\<close> appends its record: no input is rejected.
\<close>

theorem NaN_amount_makes_totals_NaN:
  assumes "parseFloat (in_amount d) = NaN" and "list_all keeps_records ops"
  shows "amount (newDonation d c) = NaN
   \<and> donations (app (addDonation d' c' w)) = donations (app w) @ [newDonation d' c']
   \<and> totalRaised (stats (app (run ops (addDonation d c w)))) = NaN
   \<and> (cur_month c = now_month c \<and> cur_year c = now_year c \<longrightarrow>
        monthlyRaised (stats (app (addDonation d c w))) = NaN)
   \<and> (cur_month c' = now_month c \<and> cur_year c' = now_year c \<longrightarrow>
        monthlyRaised (stats (app (addDonation d' c' (run ops (addDonation d c w))))) = NaN)"
proof -
  let ?r = "newDonation d c"
  have nan: "amount ?r = NaN"
    using assms(1) by (simp add: newDonation_def)
  have mem0: "?r \<in> set (donations (app (addDonation d c w)))"
    by simp
  have tot0: "totalRaised (stats (app (addDonation d c w))) = NaN"
    using totalRaised_NaN [of ?r] nan by simp
  have later: "?r \<in> set (donations (app (run ops (addDonation d c w))))
      \<and> totalRaised (stats (app (run ops (addDonation d c w)))) = NaN"
    using NaN_run [OF assms(2) mem0 nan tot0] .
  have my: "month ?r = now_month c" "year ?r = now_year c"
    by (simp_all add: newDonation_def)
  have m0: "cur_month c = now_month c \<and> cur_year c = now_year c \<longrightarrow>
        monthlyRaised (stats (app (addDonation d c w))) = NaN"
  proof
    assume "cur_month c = now_month c \<and> cur_year c = now_year c"
    then have "monthlyRaised (computeStats (donations (app (addDonation d c w)))
                 (cur_month c) (cur_year c)) = NaN"
      using mem0 nan my by (intro monthlyRaised_NaN [of ?r]) simp_all
    then show "monthlyRaised (stats (app (addDonation d c w))) = NaN"
      by simp
  qed
  have m1: "cur_month c' = now_month c \<and> cur_year c' = now_year c \<longrightarrow>
        monthlyRaised (stats (app (addDonation d' c' (run ops (addDonation d c w))))) = NaN"
  proof
    assume "cur_month c' = now_month c \<and> cur_year c' = now_year c"
    then have "monthlyRaised (computeStats
                 (donations (app (run ops (addDonation d c w))) @ [newDonation d' c'])
                 (cur_month c') (cur_year c')) = NaN"
      using later nan my by (intro monthlyRaised_NaN [of ?r]) simp_all
    then show "monthlyRaised (stats (app (addDonation d' c' (run ops (addDonation d c w))))) = NaN"
      by simp
  qed
  show ?thesis
    using nan later m0 m1 by simp
qed

text \<open>
  The amount \<^verbatim>\<open>abc\<close>, followed by a history call and a donation of 10.
\<close>

theorem NaN_amount_makes_totals_NaN_witness:
  "parseFloat (in_amount (donation_of (JStr ''abc'') None None)) = NaN
   \<and> list_all keeps_records
        [History, Append (donation_of (JNum (Fin 10)) None None) (at_time 2000 10 2026)]
   \<and> totalRaised (stats (app (run
        [History, Append (donation_of (JNum (Fin 10)) None None) (at_time 2000 10 2026)]
        (addDonation (donation_of (JStr ''abc'') None None) (at_time 1000 10 2026) world0)))) = NaN
   \<and> monthlyRaised (stats (app
        (addDonation (donation_of (JStr ''abc'') None None) (at_time 1000 10 2026) world0))) = NaN"
proof -
  have a: "parseFloat (in_amount (donation_of (JStr ''abc'') None None)) = NaN"
    by (simp add: donation_of_def parse_defs)
  have b: "list_all keeps_records
        [History, Append (donation_of (JNum (Fin 10)) None None) (at_time 2000 10 2026)]"
    by simp
  show ?thesis
    using a b NaN_amount_makes_totals_NaN [OF a b, of "at_time 1000 10 2026" _ _ world0]
    by (simp add: at_time_def)
qed

end
